theory Spec2Isabelle
  imports Main "HOL-Library.Sublist" "HOL-Library.Product_Lexorder"
begin

section \<open>NRDataReader: block structure and multi-level merge\<close>

text \<open>
  A shallow embedding of \<^verbatim>\<open>src/NR_data_reader.py\<close>. A file is the list of its lines,
  in the order \<^verbatim>\<open>enumerate(f)\<close> yields them. Characters are code points below 256.
  Floating-point numbers (times, positions) are elements of a linearly ordered type: the
  order in which \<^verbatim>\<open>sort_values\<close> arranges them and the equality \<^verbatim>\<open>drop_duplicates\<close>
  compares them with. The builtin \<^verbatim>\<open>float\<close> is a parameter \<open>pyfloat\<close> that returns
  \<open>None\<close> where the builtin raises \<^verbatim>\<open>ValueError\<close>. The parser \<^verbatim>\<open>pd.read_csv\<close> is a
  parameter \<open>read_csv\<close> that gives, for a path, the rows of the table it returns: pairs of
  the columns \<^verbatim>\<open>x_coordinate\<close> and \<^verbatim>\<open>value\<close>, in order. How the parser reads the text
  of a file, and the exceptions it may raise, are not part of the model.
\<close>

subsection \<open>Strings\<close>

text \<open>\<^verbatim>\<open>needle in line\<close> on strings: \<open>needle\<close> occurs as a contiguous run of \<open>line\<close>.\<close>

fun str_contains :: "string \<Rightarrow> string \<Rightarrow> bool" where
  "str_contains needle [] = (needle = [])"
| "str_contains needle (c # cs) = (prefix needle (c # cs) \<or> str_contains needle cs)"

text \<open>\<^verbatim>\<open>line.split(sep)\<close> for a separator of one character.\<close>

fun str_split :: "char \<Rightarrow> string \<Rightarrow> string list" where
  "str_split sep [] = [[]]"
| "str_split sep (c # cs) =
     (if c = sep then [] # str_split sep cs
      else (case str_split sep cs of
              [] \<Rightarrow> [[c]]
            | w # ws \<Rightarrow> (c # w) # ws))"

text \<open>
  The characters \<^verbatim>\<open>str.strip()\<close> removes, among the code points below 256: tab to
  carriage return, the four separators \<^verbatim>\<open>0x1c\<close> to \<^verbatim>\<open>0x1f\<close>, the space,
  \<^verbatim>\<open>0x85\<close> and \<^verbatim>\<open>0xa0\<close>.
\<close>

definition is_space :: "char \<Rightarrow> bool" where
  "is_space c =
     (let n = of_char c :: nat
      in (9 \<le> n \<and> n \<le> 13) \<or> (28 \<le> n \<and> n \<le> 32) \<or> n = 133 \<or> n = 160)"

definition str_strip :: "(char \<Rightarrow> bool) \<Rightarrow> string \<Rightarrow> string" where
  "str_strip p s = rev (dropWhile p (rev (dropWhile p s)))"

subsection \<open>\<^verbatim>\<open>_get_lines_per_block\<close>\<close>

text \<open>
  The loop over \<^verbatim>\<open>enumerate(f)\<close>: \<open>i\<close> is the index of the next line, \<open>acc\<close> is
  \<^verbatim>\<open>time_header_indices\<close>. The \<^verbatim>\<open>break\<close> leaves the loop as soon as the list
  holds two indices.
\<close>

fun header_scan :: "string list \<Rightarrow> nat \<Rightarrow> nat list \<Rightarrow> nat list" where
  "header_scan [] i acc = acc"
| "header_scan (line # f) i acc =
     (if str_contains ''Time'' line
      then (let acc' = acc @ [i]
            in if length acc' = 2 then acc' else header_scan f (Suc i) acc')
      else header_scan f (Suc i) acc)"

definition get_lines_per_block :: "string list \<Rightarrow> int" where
  "get_lines_per_block f =
     (let time_header_indices = header_scan f 0 []
      in if length time_header_indices < 2 then 0
         else int (time_header_indices ! 1) - int (time_header_indices ! 0))"

text \<open>The indices, in increasing order, of the lines of a file that contain the marker.\<close>

definition header_indices :: "string list \<Rightarrow> nat list" where
  "header_indices f = filter (\<lambda>i. str_contains ''Time'' (f ! i)) [0..<length f]"

subsection \<open>\<^verbatim>\<open>_parse_times_from_file\<close>\<close>

text \<open>
  The body of the \<^verbatim>\<open>try\<close>: \<^verbatim>\<open>float(line.split('=')[1].strip().strip('"'))\<close>.
  \<open>None\<close> is the \<^verbatim>\<open>IndexError\<close> of a line without \<^verbatim>\<open>=\<close> or the
  \<^verbatim>\<open>ValueError\<close> of \<^verbatim>\<open>float\<close>, both caught by the \<^verbatim>\<open>except\<close> clause.
\<close>

definition parse_header :: "(string \<Rightarrow> 't option) \<Rightarrow> string \<Rightarrow> 't option" where
  "parse_header pyfloat line =
     (case str_split CHR ''='' line of
        _ # time_part # _ \<Rightarrow>
          pyfloat (str_strip (\<lambda>c. c = CHR 0x22) (str_strip is_space time_part))
      | _ \<Rightarrow> None)"

text \<open>The loop over \<^verbatim>\<open>enumerate(f)\<close>; \<open>acc\<close> is the list \<^verbatim>\<open>times\<close>.\<close>

fun times_scan :: "(string \<Rightarrow> 't option) \<Rightarrow> int \<Rightarrow> string list \<Rightarrow> nat \<Rightarrow> 't list \<Rightarrow> 't list" where
  "times_scan pyfloat block_size [] i acc = acc"
| "times_scan pyfloat block_size (line # f) i acc =
     (if int i mod block_size = 0
      then (case parse_header pyfloat line of
              Some t \<Rightarrow> times_scan pyfloat block_size f (Suc i) (acc @ [t])
            | None \<Rightarrow> times_scan pyfloat block_size f (Suc i) acc)
      else times_scan pyfloat block_size f (Suc i) acc)"

definition parse_times_from_file :: "(string \<Rightarrow> 't option) \<Rightarrow> string list \<Rightarrow> int \<Rightarrow> 't list" where
  "parse_times_from_file pyfloat f block_size =
     (if block_size = 0 then [] else times_scan pyfloat block_size f 0 [])"

subsection \<open>The reader and its frames\<close>

text \<open>
  A row of a level's frame once the columns \<^verbatim>\<open>time\<close> and \<^verbatim>\<open>level\<close> are set; the
  field \<open>val\<close> is the column \<^verbatim>\<open>value\<close>.
\<close>

record ('t, 'x, 'v) rec =
  time :: 't
  x_coordinate :: 'x
  val :: 'v
  level :: nat

text \<open>
  The frames \<^verbatim>\<open>_process_variable\<close> returns: \<^verbatim>\<open>pd.DataFrame()\<close>, or a frame indexed by
  \<^verbatim>\<open>(time, x_coordinate)\<close> with one column that carries the variable's name, its rows in
  order.
\<close>

datatype ('t, 'x, 'v) dataframe =
  EmptyDataFrame
| IndexedFrame string "(('t \<times> 'x) \<times> 'v) list"

fun entries :: "('t, 'x, 'v) dataframe \<Rightarrow> (('t \<times> 'x) \<times> 'v) list" where
  "entries EmptyDataFrame = []"
| "entries (IndexedFrame name rows) = rows"

datatype error = IndexError | ValueError

record ('t, 'x, 'v) reader =
  data_dir :: string
  variables :: "string list"
  variable_paths :: "string \<Rightarrow> string list"
  times :: "'t list"
  data :: "string \<rightharpoonup> ('t, 'x, 'v) dataframe"

subsection \<open>\<^verbatim>\<open>_process_variable\<close>\<close>

text \<open>\<^verbatim>\<open>np.repeat(a, k)\<close>: every element \<open>k\<close> times, in order.\<close>

definition np_repeat :: "'a list \<Rightarrow> nat \<Rightarrow> 'a list" where
  "np_repeat a k = concat (map (replicate k) a)"

text \<open>
  The body of the loop over the files, for the file of index \<open>i\<close> whose table is
  \<open>df_level\<close>. \<open>Inr None\<close> is a \<^verbatim>\<open>continue\<close>, \<open>Inr (Some df)\<close> the frame appended to
  \<^verbatim>\<open>all_levels_dfs\<close>. The slice \<^verbatim>\<open>self.times[:num_timesteps]\<close> is \<open>take\<close>; the
  assignment of a column whose length differs from the frame's raises \<^verbatim>\<open>ValueError\<close>.
\<close>

definition level_frame ::
  "'t list \<Rightarrow> nat \<Rightarrow> int \<Rightarrow> ('x \<times> 'v) list \<Rightarrow> error + ('t, 'x, 'v) rec list option" where
  "level_frame ts i block_size df_level =
     (let rows_per_data_block = block_size - 2 in
      if rows_per_data_block \<le> 0 then Inr None
      else
        let num_timesteps = int (length df_level) div rows_per_data_block in
        if num_timesteps = 0 then Inr None
        else
          let num_rows_to_keep = num_timesteps * rows_per_data_block;
              df_complete = take (nat num_rows_to_keep) df_level;
              time_column = np_repeat (take (nat num_timesteps) ts) (nat rows_per_data_block)
          in if length time_column \<noteq> length df_complete then Inl ValueError
             else Inr (Some (map2
                    (\<lambda>t (x, v). \<lparr>time = t, x_coordinate = x, val = v, level = i\<rparr>)
                    time_column df_complete)))"

text \<open>
  The loop over \<^verbatim>\<open>enumerate(file_paths)\<close>; \<open>acc\<close> is \<^verbatim>\<open>all_levels_dfs\<close>.
  \<^verbatim>\<open>lines_per_block[i]\<close> raises \<^verbatim>\<open>IndexError\<close> past the end of the list.
\<close>

fun levels_loop ::
  "'t list \<Rightarrow> (string \<Rightarrow> ('x \<times> 'v) list) \<Rightarrow> int list \<Rightarrow> nat \<Rightarrow> string list \<Rightarrow>
   ('t, 'x, 'v) rec list list \<Rightarrow> error + ('t, 'x, 'v) rec list list" where
  "levels_loop ts read_csv lines_per_block i [] acc = Inr acc"
| "levels_loop ts read_csv lines_per_block i (filepath # file_paths) acc =
     (if length lines_per_block \<le> i then Inl IndexError
      else (case level_frame ts i (lines_per_block ! i) (read_csv filepath) of
              Inl e \<Rightarrow> Inl e
            | Inr None \<Rightarrow> levels_loop ts read_csv lines_per_block (Suc i) file_paths acc
            | Inr (Some df_complete) \<Rightarrow>
                levels_loop ts read_csv lines_per_block (Suc i) file_paths
                  (acc @ [df_complete])))"

text \<open>
  \<^verbatim>\<open>sort_values(by=['time', 'x_coordinate', 'level'])\<close>: a stable sort on the three
  columns, compared lexicographically.
\<close>

definition sort_values :: "('t::linorder, 'x::linorder, 'v) rec list \<Rightarrow> ('t, 'x, 'v) rec list" where
  "sort_values df = sort_key (\<lambda>r. (time r, x_coordinate r, level r)) df"

text \<open>
  \<^verbatim>\<open>drop_duplicates(subset=['time', 'x_coordinate'], keep='last')\<close>: a row stays when
  no later row has its time and position.
\<close>

fun drop_duplicates :: "('t, 'x, 'v) rec list \<Rightarrow> ('t, 'x, 'v) rec list" where
  "drop_duplicates [] = []"
| "drop_duplicates (r # df) =
     (if (time r, x_coordinate r) \<in> set (map (\<lambda>r'. (time r', x_coordinate r')) df)
      then drop_duplicates df
      else r # drop_duplicates df)"

definition process_variable ::
  "('t::linorder, 'x::linorder, 'v) reader \<Rightarrow> (string \<Rightarrow> ('x \<times> 'v) list) \<Rightarrow> string \<Rightarrow>
   string list \<Rightarrow> int list \<Rightarrow> error + ('t, 'x, 'v) dataframe" where
  "process_variable self read_csv variable_name file_paths lines_per_block =
     (case levels_loop (times self) read_csv lines_per_block 0 file_paths [] of
        Inl e \<Rightarrow> Inl e
      | Inr all_levels_dfs \<Rightarrow>
          if all_levels_dfs = [] then Inr EmptyDataFrame
          else
            let master_df = sort_values (concat all_levels_dfs);
                final_df = drop_duplicates master_df
            in Inr (IndexedFrame variable_name
                      (map (\<lambda>r. ((time r, x_coordinate r), val r)) final_df)))"

text \<open>
  The labels of the working columns. A variable of one of these names makes two columns
  of the frame share a label at \<^verbatim>\<open>rename\<close>; what \<^verbatim>\<open>set_index\<close> and \<^verbatim>\<open>drop\<close> do
  then is outside this model, and the theorems on \<open>process_variable\<close> exclude these names.
\<close>

definition working_labels :: "string set" where
  "working_labels = {''time'', ''x_coordinate'', ''level''}"

subsection \<open>\<^verbatim>\<open>get_variable\<close>\<close>

text \<open>
  \<^verbatim>\<open>self.data.get(variable_name, pd.DataFrame())\<close>, with the reader after the call as the
  second component.
\<close>

definition get_variable ::
  "('t, 'x, 'v) reader \<Rightarrow> string \<Rightarrow> ('t, 'x, 'v) dataframe \<times> ('t, 'x, 'v) reader" where
  "get_variable self variable_name =
     ((case data self variable_name of
         None \<Rightarrow> EmptyDataFrame
       | Some df \<Rightarrow> df), self)"

subsection \<open>An example run\<close>

text \<open>
  A variable \<^verbatim>\<open>rho\<close> on three refinement levels. The file of level 0 has blocks of five
  lines (a header, three rows, a blank line): two complete blocks and the start of a third.
  The levels 1 and 2 have blocks of three lines and refine the position 1. \<open>example_float\<close>
  is \<^verbatim>\<open>float\<close> on the three strings the headers hold, and \<open>example_tables\<close> gives the
  table \<^verbatim>\<open>pd.read_csv\<close> returns for each path.
\<close>

definition example_float :: "string \<Rightarrow> int option" where
  "example_float s =
     (if s = ''0.0'' then Some 0 else if s = ''1.0'' then Some 1
      else if s = ''2.0'' then Some 2 else None)"

definition example_file :: "string list" where
  \<open>example_file =
     [''Time = "0.0"\<newline>'', ''0.0 1.0\<newline>'', ''1.0 5.0\<newline>'', ''2.0 3.0\<newline>'', ''\<newline>'',
      ''Time = "1.0"\<newline>'', ''0.0 1.0\<newline>'', ''1.0 5.0\<newline>'', ''2.0 3.0\<newline>'', ''\<newline>'',
      ''Time = "2.0"\<newline>'', ''0.0 1.0\<newline>'']\<close>

definition example_tables :: "string \<Rightarrow> (int \<times> int) list" where
  "example_tables filepath =
     (if filepath = ''rho.x0'' then [(0, 1), (1, 5), (2, 3), (0, 1), (1, 5), (2, 3), (0, 1)]
      else if filepath = ''rho.x1'' then [(1, 9), (1, 9)]
      else if filepath = ''rho.x2'' then [(1, 11), (1, 11)]
      else [])"

definition example_reader :: "(int, int, int) reader" where
  "example_reader =
     \<lparr>data_dir = ''run'', variables = [''rho''],
      variable_paths = (\<lambda>v. if v = ''rho'' then [''rho.x0'', ''rho.x1'', ''rho.x2''] else []),
      times = [0, 1, 2],
      data = [''rho'' \<mapsto> IndexedFrame ''rho'' [((0, 1), 11)]]\<rparr>"

text \<open>The frames of the three levels, as the loop over the files collects them.\<close>

definition example_frames :: "(int, int, int) rec list list" where
  "example_frames =
     [[\<lparr>time = 0, x_coordinate = 0, val = 1, level = 0\<rparr>,
       \<lparr>time = 0, x_coordinate = 1, val = 5, level = 0\<rparr>,
       \<lparr>time = 0, x_coordinate = 2, val = 3, level = 0\<rparr>,
       \<lparr>time = 1, x_coordinate = 0, val = 1, level = 0\<rparr>,
       \<lparr>time = 1, x_coordinate = 1, val = 5, level = 0\<rparr>,
       \<lparr>time = 1, x_coordinate = 2, val = 3, level = 0\<rparr>],
      [\<lparr>time = 0, x_coordinate = 1, val = 9, level = 1\<rparr>,
       \<lparr>time = 1, x_coordinate = 1, val = 9, level = 1\<rparr>],
      [\<lparr>time = 0, x_coordinate = 1, val = 11, level = 2\<rparr>,
       \<lparr>time = 1, x_coordinate = 1, val = 11, level = 2\<rparr>]]"

text \<open>The frame the merge of the three levels produces.\<close>

definition example_merged :: "(int, int, int) dataframe" where
  "example_merged =
     IndexedFrame ''rho''
       [((0, 0), 1), ((0, 1), 11), ((0, 2), 3), ((1, 0), 1), ((1, 1), 11), ((1, 2), 3)]"

subsection \<open>Properties of the strings\<close>

lemma str_contains_sublist: "str_contains needle line = sublist needle line"
  by (induction line) (auto simp: sublist_Cons_right)

lemma str_split_not_Nil: "str_split sep s \<noteq> []"
  by (induction s) (auto split: list.splits)

subsection \<open>Block-size detection\<close>

lemma header_indices_Cons:
  "header_indices (line # f) =
     (if str_contains ''Time'' line then [0] else []) @ map Suc (header_indices f)"
proof -
  have "[0..<length (line # f)] = 0 # map Suc [0..<length f]"
    by (simp add: upt_conv_Cons map_Suc_upt del: upt_Suc)
  then show ?thesis
    unfolding header_indices_def by (simp add: filter_map comp_def)
qed

lemma header_scan_take:
  "length acc < 2 \<Longrightarrow>
   header_scan f i acc = take 2 (acc @ map (\<lambda>j. j + i) (header_indices f))"
proof (induction f arbitrary: i acc)
  case Nil
  then show ?case by (simp add: header_indices_def)
next
  case (Cons line f)
  show ?case
  proof (cases "str_contains ''Time'' line")
    case False
    with Cons show ?thesis
      by (simp add: header_indices_Cons comp_def)
  next
    case marked: True
    show ?thesis
    proof (cases "length acc = 1")
      case True
      with marked show ?thesis
        by (simp add: header_indices_Cons Let_def)
    next
      case False
      with Cons.prems have "acc = []" by (cases acc) auto
      with marked Cons.IH [of "[i]" "Suc i"] show ?thesis
        by (simp add: header_indices_Cons Let_def comp_def)
    qed
  qed
qed

text \<open>
  C4. The detector returns the difference between the indices of the first two lines that
  contain the marker \<^verbatim>\<open>Time\<close>; when fewer than two lines of the file contain it, the
  detector returns 0.
\<close>

theorem get_lines_per_block_spec:
  "get_lines_per_block f =
     (if length (header_indices f) < 2 then 0
      else int (header_indices f ! 1) - int (header_indices f ! 0))"
proof -
  have "header_scan f 0 [] = take 2 (header_indices f)"
    using header_scan_take [of "[]" f 0] by simp
  then show ?thesis
    by (auto simp: get_lines_per_block_def Let_def)
qed

text \<open>
  The example file has headers at the lines 0, 5 and 10, so its blocks have five lines; its
  first five lines alone hold one header and give 0.
\<close>

theorem get_lines_per_block_spec_witness:
  "get_lines_per_block example_file = 5 \<and> get_lines_per_block (take 5 example_file) = 0"
proof -
  have "header_indices example_file = [0, 5, 10]"
    by code_simp
  moreover have "header_indices (take 5 example_file) = [0]"
    by code_simp
  ultimately show ?thesis
    using get_lines_per_block_spec [of example_file]
      get_lines_per_block_spec [of "take 5 example_file"]
    by simp
qed


subsection \<open>Time extraction\<close>

lemma str_split_no_marker: "sep \<notin> set s \<Longrightarrow> str_split sep s = [s]"
  by (induction s) auto

lemma str_split_marker:
  "sep \<notin> set a \<Longrightarrow> str_split sep (a @ sep # b) = a # str_split sep b"
  by (induction a) auto

lemma str_split_first:
  "\<exists>ws. str_split sep s = takeWhile (\<lambda>c. c \<noteq> sep) s # ws"
  by (induction s) auto

lemma parse_header_no_marker:
  "CHR ''='' \<notin> set line \<Longrightarrow> parse_header pyfloat line = None"
  by (simp add: parse_header_def str_split_no_marker)

lemma parse_header_marker:
  assumes "CHR ''='' \<notin> set a"
  shows "parse_header pyfloat (a @ CHR ''='' # b) =
     pyfloat (str_strip (\<lambda>c. c = CHR 0x22)
                (str_strip is_space (takeWhile (\<lambda>c. c \<noteq> CHR ''='') b)))"
proof -
  obtain ws where "str_split CHR ''='' b = takeWhile (\<lambda>c. c \<noteq> CHR ''='') b # ws"
    using str_split_first by blast
  with assms show ?thesis
    by (simp add: parse_header_def str_split_marker)
qed

lemma upt_filter_Suc:
  "filter Q [0..<Suc n] = (if Q 0 then [0] else []) @ map Suc (filter (\<lambda>j. Q (Suc j)) [0..<n])"
proof -
  have "[0..<Suc n] = 0 # map Suc [0..<n]"
    by (simp add: upt_conv_Cons map_Suc_upt del: upt_Suc)
  then show ?thesis
    by (simp add: filter_map comp_def del: upt_Suc)
qed

lemma times_scan_map_filter:
  "times_scan pyfloat b f i acc =
     acc @ List.map_filter (parse_header pyfloat)
             (map ((!) f) (filter (\<lambda>j. int (j + i) mod b = 0) [0..<length f]))"
proof (induction f arbitrary: i acc)
  case Nil
  show ?case by (simp add: map_filter_def)
next
  case (Cons line f)
  have idx: "filter (\<lambda>j. int (j + i) mod b = 0) [0..<length (line # f)] =
      (if int i mod b = 0 then [0] else []) @
      map Suc (filter (\<lambda>j. int (j + Suc i) mod b = 0) [0..<length f])"
    using upt_filter_Suc [of "\<lambda>j. int (j + i) mod b = 0" "length f"] by simp
  show ?case
    unfolding idx
    by (cases "parse_header pyfloat line")
       (simp_all add: Cons.IH map_filter_def comp_def)
qed

lemma length_times_scan:
  "length (times_scan pyfloat b f 0 []) =
     length (filter (\<lambda>i. int i mod b = 0 \<and> parse_header pyfloat (f ! i) \<noteq> None) [0..<length f])"
  by (simp add: times_scan_map_filter map_filter_def filter_map comp_def conj_commute)

lemma count_multiples:
  fixes k :: nat
  assumes "0 < k"
  shows "length (filter (\<lambda>i. i mod k = 0) [0..<n]) = n div k + (if n mod k = 0 then 0 else 1)"
proof (induction n)
  case 0
  show ?case by simp
next
  case (Suc n)
  then show ?case by (simp add: div_Suc)
qed

lemma int_mod_zero_iff: "0 < b \<Longrightarrow> int i mod b = 0 \<longleftrightarrow> i mod nat b = 0"
proof -
  assume "0 < b"
  then have "int i mod b = int (i mod nat b)"
    by (simp add: zmod_int)
  then show ?thesis by simp
qed

text \<open>
  C5. With \<open>block_size = 0\<close> the extraction returns the empty list. Otherwise it visits
  the lines whose index is a multiple of \<open>block_size\<close>, in file order, and returns the
  times of those whose header parses; a header that does not parse adds nothing and changes
  no other entry. A line without \<^verbatim>\<open>=\<close> does not parse. On a line with \<^verbatim>\<open>=\<close>, the
  text after the first \<^verbatim>\<open>=\<close>, up to the next one if there is one, is stripped of
  surrounding whitespace, then of surrounding quote characters, and given to
  \<^verbatim>\<open>float\<close>.
\<close>

theorem parse_times_from_file_spec:
  "parse_times_from_file pyfloat f block_size =
     (if block_size = 0 then []
      else List.map_filter (parse_header pyfloat)
             (map ((!) f) (filter (\<lambda>i. int i mod block_size = 0) [0..<length f]))) \<and>
   (CHR ''='' \<notin> set line \<longrightarrow> parse_header pyfloat line = None) \<and>
   (CHR ''='' \<notin> set a \<longrightarrow>
      parse_header pyfloat (a @ CHR ''='' # b) =
        pyfloat (str_strip (\<lambda>c. c = CHR 0x22)
                   (str_strip is_space (takeWhile (\<lambda>c. c \<noteq> CHR ''='') b))))"
  by (simp add: parse_times_from_file_def times_scan_map_filter parse_header_no_marker
      parse_header_marker)

text \<open>
  The example file with blocks of five lines: the three headers parse, the one of the
  incomplete third block included, and the header \<^verbatim>\<open>Time = "0.0"\<close> yields the time 0.
\<close>

theorem parse_times_from_file_spec_witness:
  \<open>parse_times_from_file example_float example_file 5 = [0, 1, 2] \<and>
   parse_header example_float ''Time'' = None \<and>
   parse_header example_float ''Time = "0.0"\<newline>'' = Some 0\<close>
proof -
  have no_marker: "CHR ''='' \<notin> set ''Time''" and before: "CHR ''='' \<notin> set ''Time ''"
    by simp_all
  have visited: "List.map_filter (parse_header example_float)
      (map ((!) example_file) (filter (\<lambda>i. int i mod 5 = 0) [0..<length example_file])) =
      [0, 1, 2]"
    by code_simp
  have stripped: \<open>example_float (str_strip (\<lambda>c. c = CHR 0x22)
      (str_strip is_space (takeWhile (\<lambda>c. c \<noteq> CHR ''='') '' "0.0"\<newline>''))) = Some 0\<close>
    by code_simp
  from parse_times_from_file_spec
    [of example_float example_file 5 "''Time''" "''Time ''" \<open>'' "0.0"\<newline>''\<close>]
    no_marker before visited stripped
  show ?thesis by simp
qed

text \<open>
  C10. For \<open>block_size \<ge> 1\<close> the number of extracted times is the number of lines at the
  indices 0, \<open>block_size\<close>, 2 \<open>block_size\<close>, ... whose header parses. The header of an
  incomplete last block counts: when every visited header parses and \<open>block_size\<close> does not
  divide the number of lines, there is one time more than the file has complete blocks.
\<close>

theorem length_parse_times:
  assumes "1 \<le> block_size"
  shows "length (parse_times_from_file pyfloat f block_size) =
           length (filter (\<lambda>i. int i mod block_size = 0 \<and> parse_header pyfloat (f ! i) \<noteq> None)
                     [0..<length f])
         \<and> ((\<forall>i<length f. int i mod block_size = 0 \<longrightarrow> parse_header pyfloat (f ! i) \<noteq> None) \<longrightarrow>
              length (parse_times_from_file pyfloat f block_size) =
                length f div nat block_size +
                (if length f mod nat block_size = 0 then 0 else 1))"
proof (intro conjI impI)
  from assms have nz: "block_size \<noteq> 0" by simp
  then show len: "length (parse_times_from_file pyfloat f block_size) =
      length (filter (\<lambda>i. int i mod block_size = 0 \<and> parse_header pyfloat (f ! i) \<noteq> None)
                [0..<length f])"
    by (simp add: parse_times_from_file_def length_times_scan)
  assume all: "\<forall>i<length f. int i mod block_size = 0 \<longrightarrow> parse_header pyfloat (f ! i) \<noteq> None"
  then have "filter (\<lambda>i. int i mod block_size = 0 \<and> parse_header pyfloat (f ! i) \<noteq> None)
                [0..<length f] = filter (\<lambda>i. i mod nat block_size = 0) [0..<length f]"
    using assms by (intro filter_cong) (auto simp: int_mod_zero_iff)
  with len show "length (parse_times_from_file pyfloat f block_size) =
      length f div nat block_size + (if length f mod nat block_size = 0 then 0 else 1)"
    using assms count_multiples [of "nat block_size" "length f"] by simp
qed

text \<open>
  The example file holds two complete blocks of five lines and two lines of a third: three
  times are extracted.
\<close>

theorem length_parse_times_witness:
  "length (parse_times_from_file example_float example_file 5) = length example_file div 5 + 1"
proof -
  have parsed: "\<forall>i<length example_file.
      int i mod 5 = 0 \<longrightarrow> parse_header example_float (example_file ! i) \<noteq> None"
    by code_simp
  have "length example_file mod nat 5 \<noteq> 0"
    by code_simp
  with parsed length_parse_times [of 5 example_float example_file] show ?thesis
    by simp
qed

subsection \<open>Records of one level\<close>

lemma length_np_repeat: "length (np_repeat a k) = length a * k"
  by (induction a) (simp_all add: np_repeat_def)

lemma complete_rows_le:
  fixes rows :: int
  assumes "0 < rows"
  shows "nat ((int len div rows) * rows) \<le> len"
proof -
  have "int len div rows * rows + int len mod rows = int len"
    by simp
  moreover from assms have "0 \<le> int len mod rows"
    by simp
  ultimately have "int len div rows * rows \<le> int len"
    by linarith
  then show ?thesis by simp
qed

lemma level_frame_cases:
  fixes block_size :: int and df_level :: "('x \<times> 'v) list" and ts :: "'t list"
  assumes rows: "0 < block_size - 2" and n: "0 < int (length df_level) div (block_size - 2)"
  shows "level_frame ts i block_size df_level =
     (if length ts < nat (int (length df_level) div (block_size - 2)) then Inl ValueError
      else Inr (Some (map2 (\<lambda>t (x, v). \<lparr>time = t, x_coordinate = x, val = v, level = i\<rparr>)
                   (np_repeat (take (nat (int (length df_level) div (block_size - 2))) ts)
                      (nat (block_size - 2)))
                   (take (nat (int (length df_level) div (block_size - 2) * (block_size - 2)))
                      df_level))))"
proof -
  define rows where "rows = block_size - 2"
  define n where "n = int (length df_level) div rows"
  have keep: "length (take (nat (n * rows)) df_level) = nat n * nat rows"
    using complete_rows_le [of rows "length df_level"] rows n
    by (simp add: n_def rows_def nat_mult_distrib)
  have col: "length (np_repeat (take (nat n) ts) (nat rows)) = min (length ts) (nat n) * nat rows"
    by (simp add: length_np_repeat)
  have "min (length ts) (nat n) * nat rows = nat n * nat rows \<longleftrightarrow> \<not> length ts < nat n"
    using rows by (auto simp: rows_def min_def)
  with keep col have "length (np_repeat (take (nat n) ts) (nat rows)) \<noteq>
      length (take (nat (n * rows)) df_level) \<longleftrightarrow> length ts < nat n"
    by simp
  then show ?thesis
    using rows n unfolding level_frame_def Let_def n_def rows_def by simp
qed


lemma map2_rows:
  assumes "length tc = length df"
  shows "map (\<lambda>r. (x_coordinate r, val r))
           (map2 (\<lambda>t (x, v). \<lparr>time = t, x_coordinate = x, val = v, level = i\<rparr>) tc df) = df"
    and "map time
           (map2 (\<lambda>t (x, v). \<lparr>time = t, x_coordinate = x, val = v, level = i\<rparr>) tc df) = tc"
    and "map level
           (map2 (\<lambda>t (x, v). \<lparr>time = t, x_coordinate = x, val = v, level = i\<rparr>) tc df) =
         replicate (length df) i"
  using assms by (induction tc df rule: list_induct2) (auto split: prod.splits)

lemma levels_loop_append:
  "levels_loop ts read_csv lpb i (pre @ rest) acc =
     (case levels_loop ts read_csv lpb i pre acc of
        Inl e \<Rightarrow> Inl e
      | Inr acc' \<Rightarrow> levels_loop ts read_csv lpb (i + length pre) rest acc')"
proof (induction pre arbitrary: i acc)
  case Nil
  show ?case by simp
next
  case (Cons p pre)
  show ?case
    by (simp add: Cons.IH split: sum.splits option.splits)
qed

lemma levels_loop_error:
  assumes "levels_loop ts read_csv lpb 0 pre [] = Inr acc"
    and "length pre < length lpb"
    and "level_frame ts (length pre) (lpb ! length pre) (read_csv p) = Inl e"
  shows "levels_loop ts read_csv lpb 0 (pre @ p # post) [] = Inl e"
  using assms by (simp add: levels_loop_append)

text \<open>
  C3 (amended). Let the body of a level file hold at least one complete block. When the
  reference times are fewer than the complete blocks, nothing is truncated to the shorter
  of the two: the assignment of the time column raises \<^verbatim>\<open>ValueError\<close>, and when the
  files before this one were read without error, the processing of the variable ends with
  that error. The slice of the times itself never reads out of range. When the reference
  times are at least as many as the complete blocks, the records of every complete block
  are emitted, a block per time, with the first times in order.
\<close>

theorem level_frame_sequence_mismatch:
  fixes block_size :: int and df_level :: "('x::linorder \<times> 'v) list" and ts :: "'t::linorder list"
  assumes "0 < block_size - 2" and "0 < int (length df_level) div (block_size - 2)"
  shows "(length ts < nat (int (length df_level) div (block_size - 2)) \<longrightarrow>
            level_frame ts i block_size df_level = Inl ValueError) \<and>
         (length ts < nat (int (length df_level) div (block_size - 2)) \<and>
          times self = ts \<and> levels_loop ts read_csv lines_per_block 0 pre [] = Inr acc \<and>
          length pre < length lines_per_block \<and> lines_per_block ! length pre = block_size \<and>
          read_csv filepath = df_level \<longrightarrow>
            process_variable self read_csv variable_name (pre @ filepath # post) lines_per_block =
              Inl ValueError) \<and>
         (nat (int (length df_level) div (block_size - 2)) \<le> length ts \<longrightarrow>
            (\<exists>df. level_frame ts i block_size df_level = Inr (Some df) \<and>
                  length df = nat (int (length df_level) div (block_size - 2)) * nat (block_size - 2) \<and>
                  map time df =
                    np_repeat (take (nat (int (length df_level) div (block_size - 2))) ts)
                      (nat (block_size - 2))))"
proof (intro conjI impI)
  assume "length ts < nat (int (length df_level) div (block_size - 2))"
  then show "level_frame ts i block_size df_level = Inl ValueError"
    by (simp add: level_frame_cases [OF assms])
next
  assume run: "length ts < nat (int (length df_level) div (block_size - 2)) \<and>
    times self = ts \<and> levels_loop ts read_csv lines_per_block 0 pre [] = Inr acc \<and>
    length pre < length lines_per_block \<and> lines_per_block ! length pre = block_size \<and>
    read_csv filepath = df_level"
  then have "level_frame ts (length pre) (lines_per_block ! length pre) (read_csv filepath) =
      Inl ValueError"
    by (simp add: level_frame_cases [OF assms])
  with run have "levels_loop ts read_csv lines_per_block 0 (pre @ filepath # post) [] =
      Inl ValueError"
    by (intro levels_loop_error [of ts read_csv lines_per_block pre acc]) simp_all
  with run show "process_variable self read_csv variable_name (pre @ filepath # post)
      lines_per_block = Inl ValueError"
    by (simp add: process_variable_def)
next
  let ?rows = "block_size - 2"
  let ?n = "int (length df_level) div ?rows"
  let ?tc = "np_repeat (take (nat ?n) ts) (nat ?rows)"
  let ?keep = "take (nat (?n * ?rows)) df_level"
  let ?mk = "\<lambda>t (x, v). \<lparr>time = t, x_coordinate = x, val = v, level = i\<rparr>"
  assume enough: "nat ?n \<le> length ts"
  have keep: "length ?keep = nat ?n * nat ?rows"
    using complete_rows_le [of ?rows "length df_level"] assms
    by (simp add: nat_mult_distrib)
  from enough have col: "length ?tc = nat ?n * nat ?rows"
    by (simp add: length_np_repeat min_def)
  from enough have "level_frame ts i block_size df_level = Inr (Some (map2 ?mk ?tc ?keep))"
    by (simp add: level_frame_cases [OF assms])
  moreover have "length (map2 ?mk ?tc ?keep) = nat ?n * nat ?rows"
    using keep col by simp
  moreover have "map time (map2 ?mk ?tc ?keep) = ?tc"
    using keep col by (intro map2_rows(2)) simp
  ultimately show "\<exists>df. level_frame ts i block_size df_level = Inr (Some df) \<and>
      length df = nat ?n * nat ?rows \<and> map time df = ?tc"
    by blast
qed

text \<open>
  The table of level 1 holds two complete blocks of one row. With the single reference time
  0 the column assignment fails; read after level 0, whose table is one complete block of
  nine lines, it ends the processing of the variable. With the three times of the example
  reader two records are emitted, at the times 0 and 1.
\<close>

theorem level_frame_sequence_mismatch_witness:
  "level_frame [0] 1 3 (example_tables ''rho.x1'') =
     (Inl ValueError :: error + (int, int, int) rec list option) \<and>
   process_variable (example_reader\<lparr>times := [0]\<rparr>) example_tables ''rho''
     [''rho.x0'', ''rho.x1'', ''rho.x2''] [9, 3, 3] = Inl ValueError \<and>
   (\<exists>df. level_frame (times example_reader) 1 3 (example_tables ''rho.x1'') = Inr (Some df) \<and>
         length df = 2 \<and> map time df = [0, 1])"
proof -
  have rows: "0 < (3::int) - 2"
    by simp
  have blocks: "0 < int (length (example_tables ''rho.x1'')) div (3 - 2)"
    by (simp add: example_tables_def)
  have n: "length (example_tables ''rho.x1'') = 2"
    by (simp add: example_tables_def)
  have first: "levels_loop [0::int] example_tables [9, 3, 3] 0 [''rho.x0''] [] =
      Inr [map (\<lambda>(x, v). \<lparr>time = 0, x_coordinate = x, val = v, level = 0\<rparr>)
             (example_tables ''rho.x0'')]"
    by code_simp
  have col: "np_repeat (take 2 (times example_reader)) (nat (3 - 2)) = [0, 1]"
    by (simp add: example_reader_def np_repeat_def)
  from level_frame_sequence_mismatch [OF rows blocks, of "[0]" 1
      "example_reader\<lparr>times := [0]\<rparr>" example_tables "[9, 3, 3]" "[''rho.x0'']" _
      "''rho.x1''" "''rho''" "[''rho.x2'']"] first
  have "level_frame [0] 1 3 (example_tables ''rho.x1'') =
        (Inl ValueError :: error + (int, int, int) rec list option) \<and>
      process_variable (example_reader\<lparr>times := [0]\<rparr>) example_tables ''rho''
        [''rho.x0'', ''rho.x1'', ''rho.x2''] [9, 3, 3] = Inl ValueError"
    by (simp add: n)
  moreover
  from level_frame_sequence_mismatch [OF rows blocks, of "times example_reader" 1] col
  have "\<exists>df. level_frame (times example_reader) 1 3 (example_tables ''rho.x1'') = Inr (Some df) \<and>
         length df = 2 \<and> map time df = [0, 1]"
    by (simp add: n example_reader_def)
  ultimately show ?thesis by blast
qed

text \<open>
  C3 as stated fails: with one reference time and two complete blocks in the table of level
  1, no block's worth of records is emitted and the level fails with \<^verbatim>\<open>ValueError\<close>.
  So does the processing of the variable: read with blocks of nine lines, level 0 has one
  complete block and is collected, then level 1 fails and nothing is merged.
\<close>

theorem sequence_mismatch_counterexample:
  "length [0::int] < nat (int (length (example_tables ''rho.x1'')) div (3 - 2)) \<and>
   level_frame [0] 1 3 (example_tables ''rho.x1'') =
     (Inl ValueError :: error + (int, int, int) rec list option) \<and>
   process_variable (example_reader\<lparr>times := [0]\<rparr>) example_tables ''rho''
     [''rho.x0'', ''rho.x1''] [9, 3] = Inl ValueError"
  by code_simp

text \<open>
  C6 (amended). The number of rows of a block is \<open>block_size - 2\<close>; when it is not
  positive the file contributes no record. Otherwise let the table hold
  \<open>(block_size - 2) * n + r\<close> rows with \<open>0 \<le> r < block_size - 2\<close>, and let the reference
  times have at least \<open>n\<close> entries: the records emitted are the first
  \<open>n * (block_size - 2)\<close> rows, in order, each block of \<open>block_size - 2\<close> rows at its time,
  all tagged with the level; the last \<open>r\<close> rows are dropped.
\<close>

theorem level_frame_truncation:
  fixes block_size n r :: int and df_level :: "('x \<times> 'v) list" and ts :: "'t list"
  shows "(block_size - 2 \<le> 0 \<longrightarrow> level_frame ts i block_size df_level = Inr None) \<and>
         (0 < block_size - 2 \<and> int (length df_level) = (block_size - 2) * n + r \<and>
          0 \<le> r \<and> r < block_size - 2 \<and> nat n \<le> length ts \<longrightarrow>
            (\<exists>df. level_frame ts i block_size df_level = Inr (if n = 0 then None else Some df) \<and>
                  map (\<lambda>r. (x_coordinate r, val r)) df = take (nat (n * (block_size - 2))) df_level \<and>
                  map time df = np_repeat (take (nat n) ts) (nat (block_size - 2)) \<and>
                  map level df = replicate (nat (n * (block_size - 2))) i \<and>
                  length (drop (nat (n * (block_size - 2))) df_level) = nat r))"
proof (intro conjI impI)
  assume "block_size - 2 \<le> 0"
  then show "level_frame ts i block_size df_level = Inr None"
    by (simp add: level_frame_def)
next
  let ?rows = "block_size - 2"
  let ?mk = "\<lambda>t (x, v). \<lparr>time = t, x_coordinate = x, val = v, level = i\<rparr>"
  let ?tc = "np_repeat (take (nat n) ts) (nat ?rows)"
  let ?keep = "take (nat (n * ?rows)) df_level"
  assume "0 < ?rows \<and> int (length df_level) = ?rows * n + r \<and> 0 \<le> r \<and> r < ?rows \<and>
    nat n \<le> length ts"
  then have rows: "0 < ?rows" and len: "int (length df_level) = ?rows * n + r"
    and r: "0 \<le> r" "r < ?rows" and enough: "nat n \<le> length ts"
    by simp_all
  from rows r have ndiv: "int (length df_level) div ?rows = n"
    by (simp add: len)
  have n0: "0 \<le> n"
    using ndiv rows by (metis of_nat_0_le_iff pos_imp_zdiv_nonneg_iff)
  have total: "length df_level = nat (n * ?rows) + nat r"
    using len n0 r rows by (simp add: nat_add_distrib [symmetric] mult.commute)
  then have keep: "length ?keep = nat n * nat ?rows"
    using n0 rows by (simp add: nat_mult_distrib)
  from enough have col: "length ?tc = nat n * nat ?rows"
    by (simp add: length_np_repeat min_def)
  have dropped: "length (drop (nat (n * ?rows)) df_level) = nat r"
    using total by simp
  have same: "length ?tc = length ?keep"
    using keep col by simp
  show "\<exists>df. level_frame ts i block_size df_level = Inr (if n = 0 then None else Some df) \<and>
      map (\<lambda>r. (x_coordinate r, val r)) df = ?keep \<and> map time df = ?tc \<and>
      map level df = replicate (nat (n * ?rows)) i \<and>
      length (drop (nat (n * ?rows)) df_level) = nat r"
  proof (cases "n = 0")
    case True
    then have "level_frame ts i block_size df_level = Inr None"
      using rows ndiv by (simp add: level_frame_def)
    with True dropped show ?thesis
      by (intro exI [of _ "[]"]) (simp add: np_repeat_def)
  next
    case False
    with n0 have "0 < int (length df_level) div ?rows"
      using ndiv by simp
    from level_frame_cases [OF rows this, of ts i] enough
    have "level_frame ts i block_size df_level = Inr (Some (map2 ?mk ?tc ?keep))"
      unfolding ndiv by simp
    moreover have "map level (map2 ?mk ?tc ?keep) = replicate (nat (n * ?rows)) i"
      using map2_rows(3) [OF same] keep n0 rows by (simp add: nat_mult_distrib)
    ultimately show ?thesis
      using False dropped map2_rows(1,2) [OF same]
      by (intro exI [of _ "map2 ?mk ?tc ?keep"]) simp
  qed
qed


text \<open>
  A block size of 2 leaves no row per block and nothing is emitted. With blocks of five
  lines, the seven rows of level 0 are two blocks of three rows and one more row: six
  records are emitted, three at each of the times 0 and 1, and one row is dropped.
\<close>

theorem level_frame_truncation_witness:
  "level_frame (times example_reader) 0 2 (example_tables ''rho.x0'') = Inr None \<and>
   (\<exists>df. level_frame (times example_reader) 0 5 (example_tables ''rho.x0'') = Inr (Some df) \<and>
         map (\<lambda>r. (x_coordinate r, val r)) df = [(0, 1), (1, 5), (2, 3), (0, 1), (1, 5), (2, 3)] \<and>
         map time df = [0, 0, 0, 1, 1, 1] \<and>
         length (drop 6 (example_tables ''rho.x0'')) = 1)"
proof -
  have small: "(2::int) - 2 \<le> 0"
    by simp
  have body: "0 < (5::int) - 2 \<and> int (length (example_tables ''rho.x0'')) = (5 - 2) * 2 + 1 \<and>
      (0::int) \<le> 1 \<and> (1::int) < 5 - 2 \<and> nat 2 \<le> length (times example_reader)"
    by (simp add: example_tables_def example_reader_def)
  have kept: "take (nat (2 * (5 - 2))) (example_tables ''rho.x0'') =
      [(0, 1), (1, 5), (2, 3), (0, 1), (1, 5), (2, 3)]"
    by (simp add: example_tables_def)
  have col: "np_repeat (take (nat 2) (times example_reader)) (nat (5 - 2)) = [0, 0, 0, 1, 1, 1]"
    by code_simp
  from level_frame_truncation [of 2 "times example_reader" 0 "example_tables ''rho.x0''" 2 1] small
  have "level_frame (times example_reader) 0 2 (example_tables ''rho.x0'') = Inr None"
    by blast
  moreover
  from level_frame_truncation [of 5 "times example_reader" 0 "example_tables ''rho.x0''" 2 1] body
  have "\<exists>df. level_frame (times example_reader) 0 5 (example_tables ''rho.x0'') =
          Inr (if (2::int) = 0 then None else Some df) \<and>
        map (\<lambda>r. (x_coordinate r, val r)) df = take (nat (2 * (5 - 2))) (example_tables ''rho.x0'') \<and>
        map time df = np_repeat (take (nat 2) (times example_reader)) (nat (5 - 2)) \<and>
        map level df = replicate (nat (2 * (5 - 2))) 0 \<and>
        length (drop (nat (2 * (5 - 2))) (example_tables ''rho.x0'')) = nat 1"
    by blast
  then have "\<exists>df. level_frame (times example_reader) 0 5 (example_tables ''rho.x0'') = Inr (Some df) \<and>
         map (\<lambda>r. (x_coordinate r, val r)) df = [(0, 1), (1, 5), (2, 3), (0, 1), (1, 5), (2, 3)] \<and>
         map time df = [0, 0, 0, 1, 1, 1] \<and>
         length (drop 6 (example_tables ''rho.x0'')) = 1"
    unfolding kept col by auto
  ultimately show ?thesis by blast
qed

text \<open>
  C6 as stated fails: the seven rows of level 0 are \<open>3 * 2 + 1\<close>, and with a single
  reference time no timestep is emitted: the level fails with \<^verbatim>\<open>ValueError\<close>.
\<close>

theorem truncation_counterexample:
  "int (length (example_tables ''rho.x0'')) = (5 - 2) * 2 + 1 \<and>
   level_frame [0] 0 5 (example_tables ''rho.x0'') =
     (Inl ValueError :: error + (int, int, int) rec list option)"
  by code_simp

subsection \<open>The merge of the levels\<close>

lemma set_drop_duplicates: "set (drop_duplicates df) \<subseteq> set df"
  by (induction df) auto

lemma distinct_drop_duplicates:
  "distinct (map (\<lambda>r. (time r, x_coordinate r)) (drop_duplicates df))"
proof (induction df)
  case Nil
  show ?case by simp
next
  case (Cons r df)
  then show ?case
    using set_drop_duplicates [of df] by auto
qed

lemma drop_duplicates_last:
  assumes "k \<in> set (map (\<lambda>r. (time r, x_coordinate r)) df)"
  shows "\<exists>pre r post. df = pre @ r # post \<and> (time r, x_coordinate r) = k \<and>
           k \<notin> set (map (\<lambda>r. (time r, x_coordinate r)) post) \<and>
           map_of (map (\<lambda>r. ((time r, x_coordinate r), val r)) (drop_duplicates df)) k = Some (val r)"
  using assms
proof (induction df)
  case Nil
  then show ?case by simp
next
  case (Cons r0 df)
  let ?key = "\<lambda>r. (time r, x_coordinate r)"
  show ?case
  proof (cases "k \<in> set (map ?key df)")
    case True
    with Cons.IH obtain pre r post where
      split: "df = pre @ r # post" "?key r = k" "k \<notin> set (map ?key post)" and
      found: "map_of (map (\<lambda>r. (?key r, val r)) (drop_duplicates df)) k = Some (val r)"
      by blast
    from split have "r0 # df = (r0 # pre) @ r # post" by simp
    moreover have "map_of (map (\<lambda>r. (?key r, val r)) (drop_duplicates (r0 # df))) k = Some (val r)"
    proof (cases "?key r0 \<in> set (map ?key df)")
      case True
      with found show ?thesis by simp
    next
      case False
      with \<open>k \<in> set (map ?key df)\<close> have "?key r0 \<noteq> k" by metis
      with False found show ?thesis by simp
    qed
    ultimately show ?thesis using split by blast
  next
    case False
    with Cons.prems have k: "?key r0 = k" by auto
    with False have "map_of (map (\<lambda>r. (?key r, val r)) (drop_duplicates (r0 # df))) k = Some (val r0)"
      by auto
    with k False have "r0 # df = [] @ r0 # df \<and> ?key r0 = k \<and> k \<notin> set (map ?key df) \<and>
        map_of (map (\<lambda>r. (?key r, val r)) (drop_duplicates (r0 # df))) k = Some (val r0)"
      by simp
    then show ?thesis by blast
  qed
qed

lemma sorted_last_has_top_level:
  fixes r rb :: "('t::linorder, 'x::linorder, 'v) rec"
  assumes sorted: "sorted (map (\<lambda>r. (time r, x_coordinate r, level r)) (pre @ r # post))"
    and mem: "rb \<in> set (pre @ r # post)"
    and same: "time rb = time r" "x_coordinate rb = x_coordinate r"
    and last: "(time r, x_coordinate r) \<notin> set (map (\<lambda>r. (time r, x_coordinate r)) post)"
  shows "level rb \<le> level r"
proof -
  have "rb \<notin> set post"
  proof
    assume "rb \<in> set post"
    then have "(time rb, x_coordinate rb) \<in> set (map (\<lambda>r. (time r, x_coordinate r)) post)"
      by force
    with same last show False by simp
  qed
  with mem have "rb \<in> set pre \<or> rb = r"
    by auto
  then show ?thesis
  proof
    assume "rb \<in> set pre"
    with sorted have "(time rb, x_coordinate rb, level rb) \<le> (time r, x_coordinate r, level r)"
      by (auto simp: sorted_append)
    with same show ?thesis by simp
  next
    assume "rb = r"
    then show ?thesis by simp
  qed
qed


text \<open>The example run: the loop collects the three frames, and the merge gives six entries.\<close>

lemma example_levels_loop:
  "levels_loop (times example_reader) example_tables [5, 3, 3] 0
     [''rho.x0'', ''rho.x1'', ''rho.x2''] [] = Inr example_frames"
  by code_simp

lemma example_process_variable:
  "process_variable example_reader example_tables ''rho'' [''rho.x0'', ''rho.x1'', ''rho.x2'']
     [5, 3, 3] = Inr example_merged"
  by code_simp

lemma example_name: "''rho'' \<notin> working_labels"
  by (simp add: working_labels_def)

text \<open>
  C2. The frame the merge produces for a variable holds no two entries with the same time
  and position.
\<close>

theorem merged_keys_unique:
  assumes "variable_name \<notin> working_labels"
    and "process_variable self read_csv variable_name file_paths lines_per_block = Inr df"
  shows "distinct (map fst (entries df))"
proof (cases "levels_loop (times self) read_csv lines_per_block 0 file_paths []")
  case (Inl e)
  with assms(2) show ?thesis
    by (simp add: process_variable_def)
next
  case (Inr all_levels_dfs)
  show ?thesis
  proof (cases "all_levels_dfs = []")
    case True
    with Inr assms(2) show ?thesis
      by (auto simp: process_variable_def)
  next
    case False
    with Inr assms(2) have "entries df =
        map (\<lambda>r. ((time r, x_coordinate r), val r))
          (drop_duplicates (sort_values (concat all_levels_dfs)))"
      by (auto simp: process_variable_def Let_def)
    then show ?thesis
      using distinct_drop_duplicates [of "sort_values (concat all_levels_dfs)"]
      by (simp add: comp_def)
  qed
qed

text \<open>The six entries of the example run have six different keys.\<close>

theorem merged_keys_unique_witness:
  "\<exists>df. process_variable example_reader example_tables ''rho''
          [''rho.x0'', ''rho.x1'', ''rho.x2''] [5, 3, 3] = Inr df \<and>
        distinct (map fst (entries df))"
  using merged_keys_unique [OF example_name example_process_variable]
  by (simp add: example_process_variable)

text \<open>
  C1 (amended). Let two records of equal time and position and of levels \<open>a < b\<close> enter the
  merge of a variable, and let every record of that time and position that enters the merge
  have a level below \<open>b\<close>, or the level \<open>b\<close> and the value of the level-\<open>b\<close> record. Then the
  merge succeeds and the value of the merged frame at that time and position is the value of
  the level-\<open>b\<close> record.
\<close>

theorem highest_level_overrides:
  fixes ra rb :: "('t::linorder, 'x::linorder, 'v) rec"
  assumes name: "variable_name \<notin> working_labels"
    and loop: "levels_loop (times self) read_csv lines_per_block 0 file_paths [] = Inr all_levels_dfs"
    and ra: "ra \<in> set (concat all_levels_dfs)" and rb: "rb \<in> set (concat all_levels_dfs)"
    and same: "time ra = time rb" "x_coordinate ra = x_coordinate rb"
    and lower: "level ra < level rb"
    and top: "\<forall>r \<in> set (concat all_levels_dfs).
        time r = time rb \<and> x_coordinate r = x_coordinate rb \<longrightarrow>
        level r < level rb \<or> (level r = level rb \<and> val r = val rb)"
  shows "\<exists>df. process_variable self read_csv variable_name file_paths lines_per_block = Inr df \<and>
           map_of (entries df) (time rb, x_coordinate rb) = Some (val rb)"
proof -
  let ?key = "\<lambda>r. (time r, x_coordinate r)"
  let ?master = "sort_values (concat all_levels_dfs)"
  let ?final = "map (\<lambda>r. (?key r, val r)) (drop_duplicates ?master)"
  from rb have nonempty: "all_levels_dfs \<noteq> []" by auto
  with loop have run: "process_variable self read_csv variable_name file_paths lines_per_block =
      Inr (IndexedFrame variable_name ?final)"
    by (simp add: process_variable_def Let_def)
  have members: "set ?master = set (concat all_levels_dfs)"
    by (simp add: sort_values_def)
  with rb have "?key rb \<in> set (map ?key ?master)"
    by force
  from drop_duplicates_last [OF this] obtain pre r post where
    split: "?master = pre @ r # post" and key: "?key r = ?key rb"
    and last: "?key rb \<notin> set (map ?key post)"
    and found: "map_of ?final (?key rb) = Some (val r)"
    by blast
  have "sorted (map (\<lambda>r. (time r, x_coordinate r, level r)) (pre @ r # post))"
    using sorted_sort_key [of "\<lambda>r. (time r, x_coordinate r, level r)" "concat all_levels_dfs"]
    by (simp only: split [symmetric] sort_values_def)
  moreover from rb members split have "rb \<in> set (pre @ r # post)"
    by simp
  ultimately have "level rb \<le> level r"
    using key last by (intro sorted_last_has_top_level [of pre r post rb]) simp_all
  moreover from split members have "r \<in> set (concat all_levels_dfs)"
    by (metis in_set_conv_decomp)
  with top key have "level r < level rb \<or> (level r = level rb \<and> val r = val rb)"
    by blast
  ultimately have "val r = val rb" by auto
  with found run show ?thesis by simp
qed

text \<open>
  At time 0 and position 1 the levels 0, 1 and 2 of the example hold the values 5, 9 and
  11: the merged value is 11, the value of level 2.
\<close>

theorem highest_level_overrides_witness:
  "\<exists>df. process_variable example_reader example_tables ''rho''
          [''rho.x0'', ''rho.x1'', ''rho.x2''] [5, 3, 3] = Inr df \<and>
        map_of (entries df) (0, 1) = Some 11"
proof -
  let ?ra = "\<lparr>time = 0, x_coordinate = 1, val = 5, level = 0\<rparr> :: (int, int, int) rec"
  let ?rb = "\<lparr>time = 0, x_coordinate = 1, val = 11, level = 2\<rparr> :: (int, int, int) rec"
  have ra: "?ra \<in> set (concat example_frames)" and rb: "?rb \<in> set (concat example_frames)"
    by (simp_all add: example_frames_def)
  have top: "\<forall>r \<in> set (concat example_frames).
      time r = time ?rb \<and> x_coordinate r = x_coordinate ?rb \<longrightarrow>
      level r < level ?rb \<or> (level r = level ?rb \<and> val r = val ?rb)"
    by (simp add: example_frames_def)
  from highest_level_overrides [OF example_name example_levels_loop ra rb _ _ _ top]
  show ?thesis by simp
qed

text \<open>
  C1 as stated fails: the records of levels 0 and 1 at time 0 and position 1 both enter the
  merge, with levels \<open>0 < 1\<close>, and the merged value there is 11, not the 9 of level 1.
\<close>

theorem override_pair_counterexample:
  "levels_loop (times example_reader) example_tables [5, 3, 3] 0
     [''rho.x0'', ''rho.x1'', ''rho.x2''] [] = Inr example_frames \<and>
   \<not> (\<forall>ra \<in> set (concat example_frames). \<forall>rb \<in> set (concat example_frames).
        time ra = time rb \<and> x_coordinate ra = x_coordinate rb \<and> level ra < level rb \<longrightarrow>
        (\<exists>df. process_variable example_reader example_tables ''rho''
                 [''rho.x0'', ''rho.x1'', ''rho.x2''] [5, 3, 3] = Inr df \<and>
               map_of (entries df) (time rb, x_coordinate rb) = Some (val rb)))"
proof (rule conjI [OF example_levels_loop], rule notI)
  let ?ra = "\<lparr>time = 0, x_coordinate = 1, val = 5, level = 0\<rparr> :: (int, int, int) rec"
  let ?rb = "\<lparr>time = 0, x_coordinate = 1, val = 9, level = 1\<rparr> :: (int, int, int) rec"
  assume claim: "\<forall>ra \<in> set (concat example_frames). \<forall>rb \<in> set (concat example_frames).
        time ra = time rb \<and> x_coordinate ra = x_coordinate rb \<and> level ra < level rb \<longrightarrow>
        (\<exists>df. process_variable example_reader example_tables ''rho''
                 [''rho.x0'', ''rho.x1'', ''rho.x2''] [5, 3, 3] = Inr df \<and>
               map_of (entries df) (time rb, x_coordinate rb) = Some (val rb))"
  have "?ra \<in> set (concat example_frames)" "?rb \<in> set (concat example_frames)"
    by (simp_all add: example_frames_def)
  with claim have "\<exists>df. process_variable example_reader example_tables ''rho''
                 [''rho.x0'', ''rho.x1'', ''rho.x2''] [5, 3, 3] = Inr df \<and>
               map_of (entries df) (time ?rb, x_coordinate ?rb) = Some (val ?rb)"
    by fastforce
  then show False
    by (simp add: example_process_variable example_merged_def)
qed


text \<open>
  C8. Running the merge of a variable twice on the same inputs gives the same result both
  times, also when the result of the first run is stored in the reader in between, as
  \<^verbatim>\<open>load\<close> does.
\<close>

theorem process_variable_repeatable:
  assumes "variable_name \<notin> working_labels"
  shows "process_variable
           (case process_variable self read_csv variable_name file_paths lines_per_block of
              Inl e \<Rightarrow> self
            | Inr df \<Rightarrow> self\<lparr>data := (data self)(variable_name \<mapsto> df)\<rparr>)
           read_csv variable_name file_paths lines_per_block =
         process_variable self read_csv variable_name file_paths lines_per_block"
  by (cases "process_variable self read_csv variable_name file_paths lines_per_block")
     (simp_all add: process_variable_def)

text \<open>The second run of the example, on the reader that holds the result of the first.\<close>

theorem process_variable_repeatable_witness:
  "process_variable (example_reader\<lparr>data := (data example_reader)(''rho'' \<mapsto> example_merged)\<rparr>)
     example_tables ''rho'' [''rho.x0'', ''rho.x1'', ''rho.x2''] [5, 3, 3] =
   Inr example_merged"
  using process_variable_repeatable [OF example_name, of example_reader example_tables
      "[''rho.x0'', ''rho.x1'', ''rho.x2'']" "[5, 3, 3]"]
  by (simp add: example_process_variable)


subsection \<open>Lookup\<close>

text \<open>
  C9. For a name that the store does not hold, \<open>get_variable\<close> returns the empty frame, with
  no error, and leaves the reader, and so the store, as it was.
\<close>

theorem get_variable_unknown:
  assumes "variable_name \<notin> dom (data self)"
  shows "get_variable self variable_name = (EmptyDataFrame, self)"
  using assms by (auto simp: get_variable_def split: option.splits)


text \<open>The store of the example reader holds \<^verbatim>\<open>rho\<close> only.\<close>

theorem get_variable_unknown_witness:
  "get_variable example_reader ''phi'' = (EmptyDataFrame, example_reader)"
proof -
  have "''phi'' \<notin> dom (data example_reader)"
    by (simp add: example_reader_def)
  then show ?thesis
    by (rule get_variable_unknown)
qed

end
